theory Spec2Isabelle
  imports
    Main
    "HOL-Library.Finite_Map"
    "HOL-Library.Multiset"
    "HOL-Library.Char_ord"
    "HOL-Library.List_Lexorder"
begin

section \<open>Shared vocabulary: contexts, errors, map iteration\<close>

text \<open>
  A \<^verbatim>\<open>context.Context\<close> is seen by this code only through \<^verbatim>\<open>Done()\<close> and
  \<^verbatim>\<open>Err()\<close>: it is either live, or done with one of the two standard errors.
\<close>

datatype ctx_error = Canceled | DeadlineExceeded

datatype Context = Background | Done ctx_error

fun ctx_error_string :: "ctx_error \<Rightarrow> string" where
  "ctx_error_string Canceled = ''context canceled''"
| "ctx_error_string DeadlineExceeded = ''context deadline exceeded''"

text \<open>
  The values of Go's \<^verbatim>\<open>error\<close> interface that occur: the two sentinels of the platform
  package \<^verbatim>\<open>memory\<close> (\<^verbatim>\<open>errors.New\<close> values, compared by identity), and the two errors of the
  domain package \<^verbatim>\<open>example\<close>, of which only \<^verbatim>\<open>AlreadyExistsError\<close> has a field.
  A \<^verbatim>\<open>nil\<close> error is \<open>None\<close>.
\<close>

datatype error =
    ErrNotFound
  | ErrAlreadyExists
  | ErrEntityNotFound
  | AlreadyExistsError string

text \<open>
  \<^verbatim>\<open>for ... := range m\<close> over a Go map visits every entry once, in an order the runtime
  chooses afresh for each loop. The choice is the argument \<open>seed\<close>: each number picks the next
  key among those not yet visited. The keys start from their sorted list only to have a list to
  pick from; \<open>range_order_any\<close> below shows that every order is reached by some seed.
\<close>

fun range_order :: "nat list \<Rightarrow> 'k list \<Rightarrow> 'k list" where
  "range_order seed [] = []"
| "range_order [] (k # ks) = k # ks"
| "range_order (n # seed) (k # ks) =
     (let i = n mod length (k # ks)
      in (k # ks) ! i # range_order seed (take i (k # ks) @ drop (Suc i) (k # ks)))"

definition map_range :: "nat list \<Rightarrow> (string, 'v) fmap \<Rightarrow> (string \<times> 'v) list" where
  "map_range seed m =
     List.map_filter (\<lambda>k. map_option (Pair k) (fmlookup m k))
       (range_order seed (sorted_list_of_fset (fmdom m)))"

section \<open>The generic in-memory repository (platform package memory)\<close>

text \<open>
  \<^verbatim>\<open>Repository[T Entity]\<close> holds \<^verbatim>\<open>data map[string]T\<close>, made by \<^verbatim>\<open>New\<close>. The mutex is
  not modelled: every method holds it from entry to return, so a method is one atomic step
  on the map. The constraint \<^verbatim>\<open>T Entity\<close> is the argument \<open>GetID\<close> of the methods that use it.
  A value of \<open>'a\<close> is a value of \<^verbatim>\<open>T\<close> as the map stores it (for \<^verbatim>\<open>*example.Entity\<close>, the
  pointer). Every method returns its Go results and the repository after the call.
\<close>

record 'a Repository =
  data :: "(string, 'a) fmap"

definition New :: "'a Repository" where
  "New = \<lparr>data = fmempty\<rparr>"

definition Save ::
  "('a \<Rightarrow> string) \<Rightarrow> Context \<Rightarrow> 'a \<Rightarrow> 'a Repository \<Rightarrow> error option \<times> 'a Repository" where
  "Save GetID ctx entity r =
     (let id' = GetID entity in
      case fmlookup (data r) id' of
        Some _ \<Rightarrow> (Some ErrAlreadyExists, r)
      | None \<Rightarrow> (None, r\<lparr>data := fmupd id' entity (data r)\<rparr>))"

text \<open>On failure Go returns the zero value of \<^verbatim>\<open>T\<close> beside the error; that pair is \<open>Inl\<close>.\<close>

definition GetByID ::
  "Context \<Rightarrow> string \<Rightarrow> 'a Repository \<Rightarrow> (error + 'a) \<times> 'a Repository" where
  "GetByID ctx id' r =
     (case fmlookup (data r) id' of
        None \<Rightarrow> (Inl ErrNotFound, r)
      | Some entity \<Rightarrow> (Inr entity, r))"

definition Update ::
  "('a \<Rightarrow> string) \<Rightarrow> Context \<Rightarrow> 'a \<Rightarrow> 'a Repository \<Rightarrow> error option \<times> 'a Repository" where
  "Update GetID ctx entity r =
     (let id' = GetID entity in
      case fmlookup (data r) id' of
        None \<Rightarrow> (Some ErrNotFound, r)
      | Some _ \<Rightarrow> (None, r\<lparr>data := fmupd id' entity (data r)\<rparr>))"

definition Delete ::
  "Context \<Rightarrow> string \<Rightarrow> 'a Repository \<Rightarrow> error option \<times> 'a Repository" where
  "Delete ctx id' r =
     (case fmlookup (data r) id' of
        None \<Rightarrow> (Some ErrNotFound, r)
      | Some _ \<Rightarrow> (None, r\<lparr>data := fmdrop id' (data r)\<rparr>))"

text \<open>The loop of \<^verbatim>\<open>List\<close> appends each visited value to \<^verbatim>\<open>entities\<close>.\<close>

definition List ::
  "nat list \<Rightarrow> Context \<Rightarrow> 'a Repository \<Rightarrow> ('a list \<times> error option) \<times> 'a Repository" where
  "List seed ctx r =
     (let entities = foldl (\<lambda>entities (_, entity). entities @ [entity]) []
                       (map_range seed (data r))
      in ((entities, None), r))"

text \<open>\<^verbatim>\<open>len(r.data)\<close> is the number of keys of the map.\<close>

definition Count ::
  "Context \<Rightarrow> 'a Repository \<Rightarrow> (int \<times> error option) \<times> 'a Repository" where
  "Count ctx r = ((int (fcard (fmdom (data r))), None), r)"

section \<open>The example entity and its repository adapter (adapters package memory)\<close>

record Entity =
  ID :: string
  Email :: string
  Name :: string

definition GetID :: "Entity \<Rightarrow> string" where
  "GetID e = ID e"

text \<open>
  The adapter embeds the generic repository at \<^verbatim>\<open>*example.Entity\<close> and overrides
  \<^verbatim>\<open>GetByID\<close> and \<^verbatim>\<open>Save\<close> to translate the platform sentinels into domain errors.
  \<^verbatim>\<open>errors.Is\<close> on a sentinel without a wrapped cause is equality.
\<close>

definition NewRepository :: "Entity Repository" where
  "NewRepository = New"

definition GetByID_example ::
  "Context \<Rightarrow> string \<Rightarrow> Entity Repository \<Rightarrow> (error + Entity) \<times> Entity Repository" where
  "GetByID_example ctx id' r =
     (case GetByID ctx id' r of
        (Inl err, r') \<Rightarrow>
          (if err = ErrNotFound then (Inl ErrEntityNotFound, r') else (Inl err, r'))
      | (Inr entity, r') \<Rightarrow> (Inr entity, r'))"

definition Save_example ::
  "Context \<Rightarrow> Entity \<Rightarrow> Entity Repository \<Rightarrow> error option \<times> Entity Repository" where
  "Save_example ctx entity r =
     (case Save GetID ctx entity r of
        (Some err, r') \<Rightarrow>
          (if err = ErrAlreadyExists then (Some (AlreadyExistsError (ID entity)), r')
           else (Some err, r'))
      | (None, r') \<Rightarrow> (None, r'))"

section \<open>The health manager (platform package health)\<close>

type_synonym Status = string

definition StatusHealthy :: Status where
  "StatusHealthy = ''healthy''"

definition StatusUnhealthy :: Status where
  "StatusUnhealthy = ''unhealthy''"

text \<open>\<^verbatim>\<open>time.Duration\<close> counts nanoseconds.\<close>

type_synonym Duration = int

record CheckResult =
  Status :: Status
  Message :: string
  Latency :: Duration
  Error :: string

text \<open>
  What a round of checks runs in: the reading of the monotonic clock, whatever else the
  probes look at and change (\<open>env\<close>: connections, remote services, call counters), and
  \<open>invoked\<close>, the names of the probes whose \<^verbatim>\<open>Check\<close> has been called so far, oldest first.
  \<open>invoked\<close> is a history of the calls; no code reads it.
\<close>

record 'e World =
  clock :: int
  env :: 'e
  invoked :: "string list"

text \<open>
  A value of the interface \<^verbatim>\<open>Checker\<close> is its two methods. \<^verbatim>\<open>Check\<close> is given the
  context, the clock reading at the call and the environment; it returns its result, the
  time the call took and the environment it leaves. A probe whose \<^verbatim>\<open>Check\<close> panics or
  never returns is not a value of this type. A \<^verbatim>\<open>nil\<close> interface value is \<open>None\<close>.
\<close>

record 'e Checker =
  Name :: string
  Check :: "Context \<Rightarrow> int \<Rightarrow> 'e \<Rightarrow> CheckResult \<times> nat \<times> 'e"

datatype panic = NilPointerDereference

record 'e Manager =
  checkers :: "'e Checker option list"

definition NewManager :: "'e Manager" where
  "NewManager = \<lparr>checkers = []\<rparr>"

definition Register :: "'e Checker option \<Rightarrow> 'e Manager \<Rightarrow> 'e Manager" where
  "Register checker m = m\<lparr>checkers := checkers m @ [checker]\<rparr>"

text \<open>
  \<^verbatim>\<open>time.Now\<close> and \<^verbatim>\<open>time.Since\<close> on the monotonic clock. \<^verbatim>\<open>time.Since\<close> saturates at
  the bounds of \<^verbatim>\<open>int64\<close>, some 292 years; rounds that long are left out.
\<close>

definition Now :: "'e World \<Rightarrow> int" where
  "Now w = clock w"

definition Since :: "int \<Rightarrow> 'e World \<Rightarrow> Duration" where
  "Since start w = Now w - start"

text \<open>The call \<^verbatim>\<open>checker.Check(ctx)\<close> on a checker that is not \<^verbatim>\<open>nil\<close>.\<close>

definition call_Check ::
  "'e Checker \<Rightarrow> Context \<Rightarrow> 'e World \<Rightarrow> CheckResult \<times> 'e World" where
  "call_Check c ctx w =
     (case Check c ctx (clock w) (env w) of
        (result, d, e') \<Rightarrow>
          (result, \<lparr>clock = clock w + int d, env = e', invoked = invoked w @ [Name c]\<rparr>))"

text \<open>
  The loop of \<^verbatim>\<open>CheckAll\<close> over the copied slice; a method call on a \<^verbatim>\<open>nil\<close> interface
  value panics, after \<^verbatim>\<open>start\<close> has been read.
\<close>

fun CheckAll_loop ::
  "Context \<Rightarrow> 'e Checker option list \<Rightarrow> (string, CheckResult) fmap \<Rightarrow> 'e World
     \<Rightarrow> panic + ((string, CheckResult) fmap \<times> 'e World)" where
  "CheckAll_loop ctx [] results w = Inr (results, w)"
| "CheckAll_loop ctx (checker # rest) results w =
     (let start = Now w in
      case checker of
        None \<Rightarrow> Inl NilPointerDereference
      | Some c \<Rightarrow>
          (case call_Check c ctx w of
             (result, w') \<Rightarrow>
               (let result = result\<lparr>Latency := Since start w'\<rparr>
                in CheckAll_loop ctx rest (fmupd (Name c) result results) w')))"

definition CheckAll ::
  "Context \<Rightarrow> 'e Manager \<Rightarrow> 'e World
     \<Rightarrow> panic + ((string, CheckResult) fmap \<times> 'e World)" where
  "CheckAll ctx m w = CheckAll_loop ctx (checkers m) fmempty w"

text \<open>The loop of \<^verbatim>\<open>IsHealthy\<close> over the result map, left at the first unhealthy result.\<close>

fun IsHealthy_loop :: "(string \<times> CheckResult) list \<Rightarrow> bool" where
  "IsHealthy_loop [] = True"
| "IsHealthy_loop ((_, result) # rest) =
     (if Status result = StatusUnhealthy then False else IsHealthy_loop rest)"

definition IsHealthy ::
  "nat list \<Rightarrow> Context \<Rightarrow> 'e Manager \<Rightarrow> 'e World \<Rightarrow> panic + (bool \<times> 'e World)" where
  "IsHealthy seed ctx m w =
     (case CheckAll ctx m w of
        Inl p \<Rightarrow> Inl p
      | Inr (results, w') \<Rightarrow> Inr (IsHealthy_loop (map_range seed results), w'))"

text \<open>
  The probe \<^verbatim>\<open>MemoryChecker\<close> of the adapters package; \<open>cost\<close> is the time one call takes.
  The fields a Go literal leaves out hold their zero values.
\<close>

definition MemoryChecker :: "nat \<Rightarrow> 'e Checker" where
  "MemoryChecker cost =
     \<lparr>Name = ''memory_storage'',
      Check = (\<lambda>ctx now e.
        case ctx of
          Done err \<Rightarrow>
            (\<lparr>Status = StatusUnhealthy, Message = ''memory storage check cancelled'',
              Latency = 0, Error = ctx_error_string err\<rparr>, cost, e)
        | Background \<Rightarrow>
            (\<lparr>Status = StatusHealthy, Message = ''memory storage operational'',
              Latency = 0, Error = []\<rparr>, cost, e))\<rparr>"

text \<open>
  The probe \<^verbatim>\<open>mockHealthChecker\<close> of the package's tests: a fixed name, a fixed result,
  returned after \<open>delay\<close>. Its call counter is not modelled.
\<close>

definition mockHealthChecker :: "string \<Rightarrow> CheckResult \<Rightarrow> nat \<Rightarrow> 'e Checker" where
  "mockHealthChecker name result delay =
     \<lparr>Name = name, Check = (\<lambda>ctx now e. (result, delay, e))\<rparr>"

section \<open>Map iteration visits every entry once\<close>

lemma range_order_mset: "mset (range_order seed ks) = mset ks"
proof (induction seed ks rule: range_order.induct)
  case (3 n seed k ks)
  let ?xs = "k # ks"
  let ?i = "n mod length ?xs"
  have i: "?i < length ?xs" by simp
  have "mset ?xs = mset (take ?i ?xs @ ?xs ! ?i # drop (Suc ?i) ?xs)"
    using id_take_nth_drop [OF i] by simp
  also have "\<dots> = add_mset (?xs ! ?i) (mset (take ?i ?xs @ drop (Suc ?i) ?xs))"
    by simp
  finally show ?case
    using "3.IH" [of ?i] by (simp add: Let_def)
qed simp_all

lemma range_order_set: "set (range_order seed ks) = set ks"
  using range_order_mset [of seed ks] by (metis set_mset_mset)

lemma range_order_length: "length (range_order seed ks) = length ks"
  using range_order_mset [of seed ks] by (metis size_mset)

lemma range_order_distinct: "distinct (range_order seed ks) = distinct ks"
  by (rule mset_eq_imp_distinct_iff) (rule range_order_mset)

lemma range_order_any:
  "mset ys = mset ks \<Longrightarrow> \<exists>seed. range_order seed ks = ys"
proof (induction ys arbitrary: ks)
  case Nil
  then show ?case by simp
next
  case (Cons y ys)
  then have "y \<in> set ks"
    by (metis list.set_intros(1) set_mset_mset)
  then obtain i where i: "i < length ks" "ks ! i = y"
    by (auto simp: in_set_conv_nth)
  then obtain k ks' where ks: "ks = k # ks'"
    by (cases ks) auto
  have "mset ks = add_mset y (mset (take i ks @ drop (Suc i) ks))"
    using id_take_nth_drop [OF i(1)] i(2) by (metis mset.simps(2) mset_append union_mset_add_mset_right)
  with Cons.prems have "mset ys = mset (take i ks @ drop (Suc i) ks)"
    by simp
  from Cons.IH [OF this] obtain seed where
    "range_order seed (take i ks @ drop (Suc i) ks) = ys" ..
  then have "range_order (i # seed) ks = y # ys"
    using i unfolding ks by (simp add: Let_def)
  then show ?case ..
qed

lemma map_filter_total:
  "(\<And>x. x \<in> set xs \<Longrightarrow> f x = Some (g x)) \<Longrightarrow> List.map_filter f xs = map g xs"
  by (induction xs) (simp_all add: List.map_filter_simps)

lemma map_range_eq:
  "map_range seed m =
     map (\<lambda>k. (k, the (fmlookup m k))) (range_order seed (sorted_list_of_fset (fmdom m)))"
  unfolding map_range_def
proof (rule map_filter_total)
  fix k
  assume "k \<in> set (range_order seed (sorted_list_of_fset (fmdom m)))"
  then have "k |\<in>| fmdom m"
    by (simp add: range_order_set)
  then obtain v where "fmlookup m k = Some v"
    by (auto simp: fmlookup_dom_iff)
  then show "map_option (Pair k) (fmlookup m k) = Some (k, the (fmlookup m k))"
    by simp
qed

lemma length_sorted_list_of_fset: "length (sorted_list_of_fset S) = fcard S"
  by (simp add: sorted_list_of_fset.rep_eq fcard.rep_eq)

lemma distinct_sorted_list_of_fset: "distinct (sorted_list_of_fset S)"
  by (simp add: sorted_list_of_fset.rep_eq)

lemma map_range_length: "length (map_range seed m) = fcard (fmdom m)"
  by (simp add: map_range_eq range_order_length length_sorted_list_of_fset)

lemma map_range_keys_set: "set (map fst (map_range seed m)) = fset (fmdom m)"
  by (simp add: map_range_eq range_order_set comp_def)

lemma map_range_keys_distinct: "distinct (map fst (map_range seed m))"
  by (simp add: map_range_eq range_order_distinct comp_def distinct_sorted_list_of_fset)

lemma map_range_lookup:
  "(k, v) \<in> set (map_range seed m) \<longleftrightarrow> fmlookup m k = Some v"
  by (auto simp: map_range_eq range_order_set fmlookup_dom_iff)

lemma map_range_empty: "map_range seed fmempty = []"
  using map_range_length [of seed fmempty] by (simp add: fcard_fempty)

lemma foldl_append_values:
  "foldl (\<lambda>entities (_, entity). entities @ [entity]) acc kvs = acc @ map snd kvs"
  by (induction kvs arbitrary: acc) (simp_all add: case_prod_beta)

lemma List_values: "fst (fst (List seed ctx r)) = map snd (map_range seed (data r))"
  by (simp add: List_def foldl_append_values)

section \<open>Properties of the repository\<close>

lemma Save_result:
  "Save getID ctx entity r =
     (if getID entity |\<in>| fmdom (data r) then (Some ErrAlreadyExists, r)
      else (None, r\<lparr>data := fmupd (getID entity) entity (data r)\<rparr>))"
  by (auto simp: Save_def Let_def fmlookup_dom_iff split: option.splits)

lemma Delete_result:
  "Delete ctx id' r =
     (if id' |\<in>| fmdom (data r) then (None, r\<lparr>data := fmdrop id' (data r)\<rparr>)
      else (Some ErrNotFound, r))"
  by (auto simp: Delete_def fmlookup_dom_iff split: option.splits)

text \<open>
  C1. \<^verbatim>\<open>Save\<close> fails with \<^verbatim>\<open>ErrAlreadyExists\<close> exactly when the entity's identifier is a
  key of the store, and then leaves the store as it was; when the identifier is not a key,
  \<^verbatim>\<open>Save\<close> returns no error and \<^verbatim>\<open>GetByID\<close> of that identifier on the resulting store
  returns the saved entity.
\<close>

theorem Save_AlreadyExists_iff_present:
  "(fst (Save getID ctx entity r) = Some ErrAlreadyExists
      \<longleftrightarrow> getID entity |\<in>| fmdom (data r))
   \<and> (getID entity |\<in>| fmdom (data r) \<longrightarrow> snd (Save getID ctx entity r) = r)
   \<and> (getID entity |\<notin>| fmdom (data r) \<longrightarrow>
        fst (Save getID ctx entity r) = None
        \<and> fst (GetByID ctx' (getID entity) (snd (Save getID ctx entity r))) = Inr entity)"
  by (simp add: Save_result GetByID_def)

theorem Save_AlreadyExists_iff_present_witness:
  "GetID \<lparr>ID = ''u1'', Email = ''a@b.com'', Name = ''Alice''\<rparr>
     |\<notin>| fmdom (data (New :: Entity Repository))
   \<and> fst (Save GetID Background
            \<lparr>ID = ''u1'', Email = ''a@b.com'', Name = ''Alice''\<rparr> New) = None
   \<and> fst (GetByID Background ''u1''
            (snd (Save GetID Background
                    \<lparr>ID = ''u1'', Email = ''a@b.com'', Name = ''Alice''\<rparr> New)))
       = Inr \<lparr>ID = ''u1'', Email = ''a@b.com'', Name = ''Alice''\<rparr>
   \<and> GetID \<lparr>ID = ''u1'', Email = ''c@d.org'', Name = ''Bob''\<rparr>
     |\<in>| fmdom (data \<lparr>data = fmupd ''u1''
                \<lparr>ID = ''u1'', Email = ''a@b.com'', Name = ''Alice''\<rparr> fmempty\<rparr>)
   \<and> Save GetID Background
         \<lparr>ID = ''u1'', Email = ''c@d.org'', Name = ''Bob''\<rparr>
         \<lparr>data = fmupd ''u1'' \<lparr>ID = ''u1'', Email = ''a@b.com'', Name = ''Alice''\<rparr> fmempty\<rparr>
       = (Some ErrAlreadyExists,
          \<lparr>data = fmupd ''u1'' \<lparr>ID = ''u1'', Email = ''a@b.com'', Name = ''Alice''\<rparr> fmempty\<rparr>)"
  using
    Save_AlreadyExists_iff_present
      [of GetID Background "\<lparr>ID = ''u1'', Email = ''a@b.com'', Name = ''Alice''\<rparr>"
          New Background]
    Save_AlreadyExists_iff_present
      [of GetID Background "\<lparr>ID = ''u1'', Email = ''c@d.org'', Name = ''Bob''\<rparr>"
          "\<lparr>data = fmupd ''u1'' \<lparr>ID = ''u1'', Email = ''a@b.com'', Name = ''Alice''\<rparr> fmempty\<rparr>"
          Background]
  by (simp add: GetID_def New_def prod_eq_iff)

text \<open>
  C2. When no record is stored under an identifier, \<^verbatim>\<open>GetByID\<close> and \<^verbatim>\<open>Delete\<close> of it
  and \<^verbatim>\<open>Update\<close> of any entity carrying it all fail with \<^verbatim>\<open>ErrNotFound\<close>, and each leaves the
  store as it was; in particular \<^verbatim>\<open>Update\<close> inserts nothing.
\<close>

theorem absent_id_NotFound:
  assumes "id' |\<notin>| fmdom (data r)"
  shows "GetByID ctx1 id' r = (Inl ErrNotFound, r)
         \<and> (getID entity = id' \<longrightarrow> Update getID ctx2 entity r = (Some ErrNotFound, r))
         \<and> Delete ctx3 id' r = (Some ErrNotFound, r)"
  using assms
  by (auto simp: GetByID_def Update_def Delete_def Let_def fmlookup_dom_iff
      split: option.splits)

theorem absent_id_NotFound_witness:
  "''ghost'' |\<notin>| fmdom (data (New :: Entity Repository))
   \<and> GetID \<lparr>ID = ''ghost'', Email = ''g@h.io'', Name = ''Casper''\<rparr> = ''ghost''
   \<and> GetByID Background ''ghost'' (New :: Entity Repository) = (Inl ErrNotFound, New)
   \<and> Update GetID (Done Canceled)
         \<lparr>ID = ''ghost'', Email = ''g@h.io'', Name = ''Casper''\<rparr> New
       = (Some ErrNotFound, New)
   \<and> Delete Background ''ghost'' (New :: Entity Repository) = (Some ErrNotFound, New)"
proof -
  have absent: "''ghost'' |\<notin>| fmdom (data (New :: Entity Repository))"
    by (simp add: New_def)
  have ident: "GetID \<lparr>ID = ''ghost'', Email = ''g@h.io'', Name = ''Casper''\<rparr> = ''ghost''"
    by (simp add: GetID_def)
  show ?thesis
    using absent ident
      absent_id_NotFound [OF absent, of Background GetID
        "\<lparr>ID = ''ghost'', Email = ''g@h.io'', Name = ''Casper''\<rparr>" "Done Canceled" Background]
    by simp
qed

text \<open>
  C3. When a record is stored under an identifier, \<^verbatim>\<open>Delete\<close> of it returns no error;
  on the resulting store \<^verbatim>\<open>GetByID\<close> of it fails with \<^verbatim>\<open>ErrNotFound\<close>, \<^verbatim>\<open>Count\<close> is one
  less than on the store before, and every other identifier maps to what it mapped to before.
\<close>

theorem Delete_present:
  assumes "id' |\<in>| fmdom (data r)"
  shows "fst (Delete ctx id' r) = None
         \<and> fst (GetByID ctx1 id' (snd (Delete ctx id' r))) = Inl ErrNotFound
         \<and> fst (fst (Count ctx2 (snd (Delete ctx id' r)))) = fst (fst (Count ctx3 r)) - 1
         \<and> (\<forall>k. k \<noteq> id' \<longrightarrow>
               fmlookup (data (snd (Delete ctx id' r))) k = fmlookup (data r) k)"
proof -
  have "0 < fcard (fmdom (data r))"
    using assms by (metis fcard_fminus1_less less_nat_zero_code neq0_conv)
  moreover have "fcard (fmdom (data r) |-| {|id'|}) = fcard (fmdom (data r)) - 1"
    using assms by (simp add: fcard_fminus_fsingleton)
  ultimately show ?thesis
    using assms by (simp add: Delete_result GetByID_def Count_def of_nat_diff)
qed

theorem Delete_present_witness:
  "''u1'' |\<in>| fmdom (data \<lparr>data = fmupd ''u1'' (1::nat) (fmupd ''u2'' 2 fmempty)\<rparr>)
   \<and> fst (Delete Background ''u1'' \<lparr>data = fmupd ''u1'' (1::nat) (fmupd ''u2'' 2 fmempty)\<rparr>)
       = None
   \<and> fst (GetByID Background ''u1''
        (snd (Delete Background ''u1''
               \<lparr>data = fmupd ''u1'' (1::nat) (fmupd ''u2'' 2 fmempty)\<rparr>))) = Inl ErrNotFound
   \<and> fst (fst (Count Background
        (snd (Delete Background ''u1''
               \<lparr>data = fmupd ''u1'' (1::nat) (fmupd ''u2'' 2 fmempty)\<rparr>)))) = 1
   \<and> fst (GetByID Background ''u2''
        (snd (Delete Background ''u1''
               \<lparr>data = fmupd ''u1'' (1::nat) (fmupd ''u2'' 2 fmempty)\<rparr>))) = Inr 2"
proof -
  let ?r = "\<lparr>data = fmupd ''u1'' (1::nat) (fmupd ''u2'' 2 fmempty)\<rparr>"
  have present: "''u1'' |\<in>| fmdom (data ?r)"
    by simp
  have count: "fst (fst (Count Background ?r)) = 2"
    by (simp add: Count_def fcard_finsert_if fcard_fempty)
  have other: "fmlookup (data ?r) ''u2'' = Some 2"
    by simp
  show ?thesis
    using present count other
      Delete_present [OF present, of Background Background Background Background]
    by (simp add: GetByID_def)
qed

text \<open>
  C4. \<^verbatim>\<open>Count\<close> returns the length of the slice that \<^verbatim>\<open>List\<close> returns, whatever order
  the runtime iterates the map in; both return a nil error, and neither changes the store;
  on the empty store \<^verbatim>\<open>List\<close> returns the empty slice.
\<close>

theorem Count_eq_length_List:
  "fst (fst (Count ctx r)) = int (length (fst (fst (List seed ctx' r))))
   \<and> snd (fst (Count ctx r)) = None
   \<and> snd (fst (List seed ctx' r)) = None
   \<and> snd (Count ctx r) = r
   \<and> snd (List seed ctx' r) = r
   \<and> fst (List seed ctx' New) = ([], None)"
  by (simp add: Count_def List_def foldl_append_values map_range_length New_def map_range_empty)

text \<open>
  C9. No method of the repository looks at its context: called with any two contexts on the
  same store (and, for \<^verbatim>\<open>List\<close>, the same iteration order) it returns the same results and
  leaves the same store.
\<close>

theorem context_never_matters:
  "Save getID ctx1 entity r = Save getID ctx2 entity r
   \<and> GetByID ctx1 id' r = GetByID ctx2 id' r
   \<and> Update getID ctx1 entity r = Update getID ctx2 entity r
   \<and> Delete ctx1 id' r = Delete ctx2 id' r
   \<and> List seed ctx1 r = List seed ctx2 r
   \<and> Count ctx1 r = Count ctx2 r"
  by (simp add: Save_def GetByID_def Update_def Delete_def List_def Count_def)

section \<open>Properties of the health manager\<close>

lemma IsHealthy_loop_iff:
  "IsHealthy_loop kvs \<longleftrightarrow> (\<forall>kv \<in> set kvs. Status (snd kv) \<noteq> StatusUnhealthy)"
  by (induction kvs rule: IsHealthy_loop.induct) auto

lemma map_range_values: "snd ` set (map_range seed m) = fmran' m"
proof (rule set_eqI)
  fix v
  have "v \<in> snd ` set (map_range seed m) \<longleftrightarrow> (\<exists>k. (k, v) \<in> set (map_range seed m))"
    by force
  also have "\<dots> \<longleftrightarrow> (\<exists>k. fmlookup m k = Some v)"
    by (simp add: map_range_lookup)
  also have "\<dots> \<longleftrightarrow> v \<in> fmran' m"
    by (simp add: fmlookup_ran'_iff)
  finally show "v \<in> snd ` set (map_range seed m) \<longleftrightarrow> v \<in> fmran' m" .
qed

lemma IsHealthy_loop_map_range:
  "IsHealthy_loop (map_range seed results)
     \<longleftrightarrow> (\<forall>r \<in> fmran' results. Status r \<noteq> StatusUnhealthy)"
proof -
  have "IsHealthy_loop (map_range seed results)
          \<longleftrightarrow> (\<forall>r \<in> snd ` set (map_range seed results). Status r \<noteq> StatusUnhealthy)"
    by (simp add: IsHealthy_loop_iff)
  then show ?thesis
    by (simp only: map_range_values)
qed

lemma CheckAll_loop_append:
  "CheckAll_loop ctx (xs @ ys) results w =
     (case CheckAll_loop ctx xs results w of
        Inl p \<Rightarrow> Inl p
      | Inr (results', w') \<Rightarrow> CheckAll_loop ctx ys results' w')"
  by (induction xs arbitrary: results w) (auto simp: Let_def split: option.splits prod.splits)

lemma CheckAll_loop_Some:
  "\<exists>results' w'. CheckAll_loop ctx (map Some cs) results w = Inr (results', w')
     \<and> fmdom results' = fmdom results |\<union>| fset_of_list (map Name cs)
     \<and> invoked w' = invoked w @ map Name cs
     \<and> (\<forall>k. k \<notin> Name ` set cs \<longrightarrow> fmlookup results' k = fmlookup results k)"
proof (induction cs arbitrary: results w)
  case Nil
  show ?case by simp
next
  case (Cons c cs)
  obtain result d e' where chk: "Check c ctx (clock w) (env w) = (result, d, e')"
    by (metis prod_cases3)
  let ?w = "\<lparr>clock = clock w + int d, env = e', invoked = invoked w @ [Name c]\<rparr>"
  let ?res = "fmupd (Name c) (result\<lparr>Latency := int d\<rparr>) results"
  have step: "CheckAll_loop ctx (map Some (c # cs)) results w
                = CheckAll_loop ctx (map Some cs) ?res ?w"
    by (simp add: call_Check_def chk Now_def Since_def)
  from Cons.IH [of ?res ?w] show ?case
    unfolding step by auto
qed

lemma registered_checkers:
  "checkers (foldl (\<lambda>m p. Register p m) m0 cs) = checkers m0 @ cs"
  by (induction cs arbitrary: m0) (simp_all add: Register_def)


lemma CheckAll_registered:
  "CheckAll ctx (foldl (\<lambda>m p. Register p m) NewManager cs) w = CheckAll_loop ctx cs fmempty w"
  by (simp add: CheckAll_def registered_checkers NewManager_def)

lemma CheckAll_loop_entry:
  assumes later: "Name c \<notin> Name ` set post"
    and pre: "CheckAll_loop ctx (map Some pre) fmempty w = Inr (results_pre, w_pre)"
    and chk: "call_Check c ctx w_pre = (result, w_c)"
  shows "\<exists>results w'.
           CheckAll_loop ctx (map Some (pre @ c # post)) fmempty w = Inr (results, w')
           \<and> invoked w' = invoked w @ map Name (pre @ c # post)
           \<and> fmlookup results (Name c)
               = Some (result\<lparr>Latency := clock w_c - clock w_pre\<rparr>)"
proof -
  let ?entry = "result\<lparr>Latency := clock w_c - clock w_pre\<rparr>"
  let ?res = "fmupd (Name c) ?entry results_pre"
  have inv_pre: "invoked w_pre = invoked w @ map Name pre"
    using CheckAll_loop_Some [of ctx pre fmempty w] pre by auto
  have inv_c: "invoked w_c = invoked w_pre @ [Name c]"
    using chk by (auto simp: call_Check_def split: prod.splits)
  have split: "CheckAll_loop ctx (map Some (pre @ c # post)) fmempty w
                 = CheckAll_loop ctx (map Some post) ?res w_c"
    using pre chk by (simp add: CheckAll_loop_append Now_def Since_def)
  obtain results w' where
    run: "CheckAll_loop ctx (map Some post) ?res w_c = Inr (results, w')"
    and inv: "invoked w' = invoked w_c @ map Name post"
    and keep: "\<forall>k. k \<notin> Name ` set post \<longrightarrow> fmlookup results k = fmlookup ?res k"
    using CheckAll_loop_Some [of ctx post ?res w_c] by blast
  have "fmlookup results (Name c) = Some ?entry"
    using keep later by simp
  then show ?thesis
    using split run inv inv_c inv_pre by simp
qed

text \<open>
  A \<^verbatim>\<open>nil\<close> probe anywhere in the registry makes the round panic: the probes before it are
  called and return, then the method call on \<^verbatim>\<open>nil\<close> panics.
\<close>

lemma CheckAll_loop_nil:
  "None \<in> set cs \<Longrightarrow> CheckAll_loop ctx cs results w = Inl NilPointerDereference"
  by (induction cs arbitrary: results w) (auto simp: Let_def split: option.splits prod.splits)

lemma CheckAll_nil_panics:
  "None \<in> set (checkers m) \<Longrightarrow> CheckAll ctx m w = Inl NilPointerDereference"
  by (simp add: CheckAll_def CheckAll_loop_nil)

text \<open>
  C5. \<^verbatim>\<open>IsHealthy\<close> returns true exactly when no result in the map that \<^verbatim>\<open>CheckAll\<close>
  returns for the same registry, context and world has status unhealthy, in whatever order
  the map is iterated; when \<^verbatim>\<open>CheckAll\<close> panics instead of returning a map, so does
  \<^verbatim>\<open>IsHealthy\<close>. With no probe registered \<^verbatim>\<open>CheckAll\<close> returns the empty map and
  \<^verbatim>\<open>IsHealthy\<close> returns true.
\<close>

theorem IsHealthy_iff_no_unhealthy:
  "IsHealthy seed ctx m w =
     (case CheckAll ctx m w of
        Inl p \<Rightarrow> Inl p
      | Inr (results, w') \<Rightarrow>
          Inr (\<forall>r \<in> fmran' results. Status r \<noteq> StatusUnhealthy, w'))
   \<and> CheckAll ctx NewManager w = Inr (fmempty, w)
   \<and> IsHealthy seed ctx NewManager w = Inr (True, w)"
proof (intro conjI)
  show "IsHealthy seed ctx m w =
     (case CheckAll ctx m w of
        Inl p \<Rightarrow> Inl p
      | Inr (results, w') \<Rightarrow>
          Inr (\<forall>r \<in> fmran' results. Status r \<noteq> StatusUnhealthy, w'))"
    by (simp add: IsHealthy_def IsHealthy_loop_map_range split: sum.splits)
  show empty: "CheckAll ctx NewManager w = Inr (fmempty, w)"
    by (simp add: CheckAll_def NewManager_def)
  show "IsHealthy seed ctx NewManager w = Inr (True, w)"
    by (simp add: IsHealthy_def empty map_range_empty)
qed

theorem IsHealthy_iff_no_unhealthy_witness:
  "IsHealthy [] (Done Canceled) (Register (Some (MemoryChecker 5)) NewManager)
       \<lparr>clock = 100, env = (), invoked = []\<rparr>
     = Inr (False, \<lparr>clock = 105, env = (), invoked = [''memory_storage'']\<rparr>)
   \<and> IsHealthy [2, 0] Background (Register (Some (MemoryChecker 5)) NewManager)
       \<lparr>clock = 100, env = (), invoked = []\<rparr>
     = Inr (True, \<lparr>clock = 105, env = (), invoked = [''memory_storage'']\<rparr>)"
  using
    IsHealthy_iff_no_unhealthy [of "[]" "Done Canceled"
      "Register (Some (MemoryChecker 5)) NewManager" "\<lparr>clock = 100, env = (), invoked = []\<rparr>"]
    IsHealthy_iff_no_unhealthy [of "[2, 0]" Background
      "Register (Some (MemoryChecker 5)) NewManager" "\<lparr>clock = 100, env = (), invoked = []\<rparr>"]
  by (simp add: CheckAll_def Register_def NewManager_def MemoryChecker_def call_Check_def
      Now_def Since_def Ball_def fmlookup_ran'_iff StatusHealthy_def StatusUnhealthy_def)

text \<open>
  C6. Register the probes \<open>pre\<close>, then \<open>c\<close>, then \<open>post\<close>, where no probe of \<open>post\<close> has
  the name of \<open>c\<close> (probes of \<open>pre\<close> may). \<^verbatim>\<open>CheckAll\<close> calls \<^verbatim>\<open>Check\<close> on all of them, one
  after the other in the order of registration, and the entry of the returned map under the
  name of \<open>c\<close> is what \<open>c\<close> returned when its turn came (with the measured latency): the
  latest-registered probe of a name wins.
\<close>

theorem last_registered_wins:
  assumes "Name c \<notin> Name ` set post"
    and "CheckAll ctx (foldl (\<lambda>m p. Register p m) NewManager (map Some pre)) w
           = Inr (results_pre, w_pre)"
    and "Check c ctx (clock w_pre) (env w_pre) = (result, d, e')"
  shows "\<exists>results w'.
           CheckAll ctx (foldl (\<lambda>m p. Register p m) NewManager (map Some (pre @ c # post))) w
             = Inr (results, w')
           \<and> invoked w' = invoked w @ map Name (pre @ c # post)
           \<and> fmlookup results (Name c) = Some (result\<lparr>Latency := int d\<rparr>)"
proof -
  let ?w_c = "\<lparr>clock = clock w_pre + int d, env = e', invoked = invoked w_pre @ [Name c]\<rparr>"
  have pre: "CheckAll_loop ctx (map Some pre) fmempty w = Inr (results_pre, w_pre)"
    using assms(2) by (simp only: CheckAll_registered)
  have call: "call_Check c ctx w_pre = (result, ?w_c)"
    using assms(3) by (simp add: call_Check_def)
  show ?thesis
    using CheckAll_loop_entry [OF assms(1) pre call]
    by (simp only: CheckAll_registered) simp
qed

theorem last_registered_wins_witness:
  "Name (MemoryChecker 4 :: unit Checker)
     \<notin> Name ` set [\<lparr>Name = ''cache'',
                     Check = (\<lambda>ctx now e.
                       (\<lparr>Status = StatusHealthy, Message = ''ok'', Latency = 0, Error = []\<rparr>,
                        2, e))\<rparr>]
   \<and> CheckAll (Done DeadlineExceeded)
        (foldl (\<lambda>m p. Register p m) NewManager
           (map Some [\<lparr>Name = ''memory_storage'',
                        Check = (\<lambda>ctx now e.
                          (\<lparr>Status = StatusHealthy, Message = ''first'', Latency = 0,
                            Error = []\<rparr>, 3, e))\<rparr>]))
        \<lparr>clock = 100, env = (), invoked = []\<rparr>
      = Inr (fmupd ''memory_storage''
               \<lparr>Status = StatusHealthy, Message = ''first'', Latency = 3, Error = []\<rparr> fmempty,
             \<lparr>clock = 103, env = (), invoked = [''memory_storage'']\<rparr>)
   \<and> (\<exists>results w'.
        CheckAll (Done DeadlineExceeded)
          (foldl (\<lambda>m p. Register p m) NewManager
             (map Some
               ([\<lparr>Name = ''memory_storage'',
                   Check = (\<lambda>ctx now e.
                     (\<lparr>Status = StatusHealthy, Message = ''first'', Latency = 0,
                       Error = []\<rparr>, 3, e))\<rparr>]
                @ MemoryChecker 4
                # [\<lparr>Name = ''cache'',
                     Check = (\<lambda>ctx now e.
                       (\<lparr>Status = StatusHealthy, Message = ''ok'', Latency = 0, Error = []\<rparr>,
                        2, e))\<rparr>])))
          \<lparr>clock = 100, env = (), invoked = []\<rparr> = Inr (results, w')
        \<and> invoked w' = [''memory_storage'', ''memory_storage'', ''cache'']
        \<and> fmlookup results ''memory_storage''
            = Some \<lparr>Status = StatusUnhealthy, Message = ''memory storage check cancelled'',
                    Latency = 4, Error = ''context deadline exceeded''\<rparr>)"
proof -
  let ?first = "\<lparr>Name = ''memory_storage'',
                 Check = (\<lambda>ctx now e.
                   (\<lparr>Status = StatusHealthy, Message = ''first'', Latency = 0,
                     Error = []\<rparr>, 3, e))\<rparr> :: unit Checker"
  let ?cache = "\<lparr>Name = ''cache'',
                 Check = (\<lambda>ctx now e.
                   (\<lparr>Status = StatusHealthy, Message = ''ok'', Latency = 0, Error = []\<rparr>,
                    2, e))\<rparr> :: unit Checker"
  let ?w = "\<lparr>clock = 100, env = (), invoked = []\<rparr>"
  let ?w_pre = "\<lparr>clock = 103, env = (), invoked = [''memory_storage'']\<rparr>"
  have later: "Name (MemoryChecker 4 :: unit Checker) \<notin> Name ` set [?cache]"
    by (simp add: MemoryChecker_def)
  have pre: "CheckAll (Done DeadlineExceeded)
               (foldl (\<lambda>m p. Register p m) NewManager (map Some [?first])) ?w
             = Inr (fmupd ''memory_storage''
                      \<lparr>Status = StatusHealthy, Message = ''first'', Latency = 3, Error = []\<rparr>
                      fmempty, ?w_pre)"
    by (simp add: CheckAll_def Register_def NewManager_def call_Check_def Now_def Since_def)
  have chk: "Check (MemoryChecker 4 :: unit Checker) (Done DeadlineExceeded)
               (clock ?w_pre) (env ?w_pre)
             = (\<lparr>Status = StatusUnhealthy, Message = ''memory storage check cancelled'',
                  Latency = 0, Error = ''context deadline exceeded''\<rparr>, 4, ())"
    by (simp add: MemoryChecker_def)
  show ?thesis
    using later pre last_registered_wins [OF later pre chk]
    by (simp add: MemoryChecker_def)
qed

text \<open>
  C7 as stated fails in one part: a probe that reports unhealthy is not recorded when a
  later-registered probe has its name. Here two probes are named \<^verbatim>\<open>db\<close>; the first reports
  unhealthy, the second healthy, and the only entry of the returned map is the second's.
\<close>

theorem unhealthy_report_overwritten_counterexample:
  "Status (fst (call_Check
       (mockHealthChecker ''db''
          \<lparr>Status = StatusUnhealthy, Message = ''one'', Latency = 0, Error = ''down''\<rparr> 5)
       Background \<lparr>clock = 0, env = (), invoked = []\<rparr>)) = StatusUnhealthy
   \<and> CheckAll Background
        (Register
           (Some (mockHealthChecker ''db''
              \<lparr>Status = StatusHealthy, Message = ''two'', Latency = 0, Error = []\<rparr> 3))
           (Register
              (Some (mockHealthChecker ''db''
                 \<lparr>Status = StatusUnhealthy, Message = ''one'', Latency = 0,
                   Error = ''down''\<rparr> 5))
              NewManager))
        \<lparr>clock = 0, env = (), invoked = []\<rparr>
      = Inr (fmupd ''db''
               \<lparr>Status = StatusHealthy, Message = ''two'', Latency = 3, Error = []\<rparr> fmempty,
             \<lparr>clock = 8, env = (), invoked = [''db'', ''db'']\<rparr>)
   \<and> StatusHealthy \<noteq> StatusUnhealthy"
  by (simp add: CheckAll_def Register_def NewManager_def call_Check_def Now_def Since_def
      mockHealthChecker_def StatusHealthy_def StatusUnhealthy_def)

text \<open>
  C7, as the code has it. For every registry of probes and every context, \<^verbatim>\<open>CheckAll\<close>
  returns a map and no error; the keys of the map are exactly the registered names, so each
  distinct name has one entry; every probe is called, whatever the probes before it reported;
  and the result of a probe whose name no later-registered probe has (unhealthy or not) is the
  entry under its name, with the measured latency.
\<close>

theorem CheckAll_returns_mapping:
  assumes "checkers m = map Some cs"
  shows "\<exists>results w'.
           CheckAll ctx m w = Inr (results, w')
           \<and> fmdom results = fset_of_list (map Name cs)
           \<and> invoked w' = invoked w @ map Name cs
           \<and> (\<forall>pre c post results_pre w_pre result w_c.
                 cs = pre @ c # post \<and> Name c \<notin> Name ` set post
                 \<and> CheckAll_loop ctx (map Some pre) fmempty w = Inr (results_pre, w_pre)
                 \<and> call_Check c ctx w_pre = (result, w_c)
                 \<longrightarrow> fmlookup results (Name c)
                       = Some (result\<lparr>Latency := clock w_c - clock w_pre\<rparr>))"
proof -
  obtain results w' where
    run: "CheckAll_loop ctx (map Some cs) fmempty w = Inr (results, w')"
    and dom: "fmdom results = fset_of_list (map Name cs)"
    and inv: "invoked w' = invoked w @ map Name cs"
    using CheckAll_loop_Some [of ctx cs fmempty w] by auto
  have "fmlookup results (Name c) = Some (result\<lparr>Latency := clock w_c - clock w_pre\<rparr>)"
    if "cs = pre @ c # post" "Name c \<notin> Name ` set post"
      "CheckAll_loop ctx (map Some pre) fmempty w = Inr (results_pre, w_pre)"
      "call_Check c ctx w_pre = (result, w_c)"
    for pre c post results_pre w_pre result w_c
    using CheckAll_loop_entry [OF that(2) that(3) that(4)] run that(1) by auto
  then show ?thesis
    using run dom inv assms by (simp add: CheckAll_def)
qed

theorem CheckAll_returns_mapping_witness:
  "checkers
     (Register
        (Some (mockHealthChecker ''db''
           \<lparr>Status = StatusHealthy, Message = ''second'', Latency = 0, Error = []\<rparr> 2))
        (Register
           (Some (mockHealthChecker ''cache''
              \<lparr>Status = StatusUnhealthy, Message = [], Latency = 0, Error = ''timeout''\<rparr> 8))
           (Register
              (Some (mockHealthChecker ''db''
                 \<lparr>Status = StatusHealthy, Message = ''first'', Latency = 0, Error = []\<rparr> 3))
              (NewManager :: unit Manager))))
     = map Some
         [mockHealthChecker ''db''
            \<lparr>Status = StatusHealthy, Message = ''first'', Latency = 0, Error = []\<rparr> 3,
          mockHealthChecker ''cache''
            \<lparr>Status = StatusUnhealthy, Message = [], Latency = 0, Error = ''timeout''\<rparr> 8,
          mockHealthChecker ''db''
            \<lparr>Status = StatusHealthy, Message = ''second'', Latency = 0, Error = []\<rparr> 2]
   \<and> (\<exists>results w'.
        CheckAll Background
          (Register
             (Some (mockHealthChecker ''db''
                \<lparr>Status = StatusHealthy, Message = ''second'', Latency = 0, Error = []\<rparr> 2))
             (Register
                (Some (mockHealthChecker ''cache''
                   \<lparr>Status = StatusUnhealthy, Message = [], Latency = 0,
                     Error = ''timeout''\<rparr> 8))
                (Register
                   (Some (mockHealthChecker ''db''
                      \<lparr>Status = StatusHealthy, Message = ''first'', Latency = 0,
                        Error = []\<rparr> 3))
                   NewManager)))
          \<lparr>clock = 0, env = (), invoked = []\<rparr> = Inr (results, w')
        \<and> fmdom results = {|''db'', ''cache''|}
        \<and> invoked w' = [''db'', ''cache'', ''db'']
        \<and> fmlookup results ''cache''
            = Some \<lparr>Status = StatusUnhealthy, Message = [], Latency = 8,
                    Error = ''timeout''\<rparr>)"
proof -
  let ?db1 = "mockHealthChecker ''db''
      \<lparr>Status = StatusHealthy, Message = ''first'', Latency = 0, Error = []\<rparr> 3
      :: unit Checker"
  let ?cache = "mockHealthChecker ''cache''
      \<lparr>Status = StatusUnhealthy, Message = [], Latency = 0, Error = ''timeout''\<rparr> 8
      :: unit Checker"
  let ?db2 = "mockHealthChecker ''db''
      \<lparr>Status = StatusHealthy, Message = ''second'', Latency = 0, Error = []\<rparr> 2
      :: unit Checker"
  let ?m = "Register (Some ?db2) (Register (Some ?cache) (Register (Some ?db1) NewManager))"
  let ?w = "\<lparr>clock = 0, env = (), invoked = []\<rparr>"
  let ?w_pre = "\<lparr>clock = 3, env = (), invoked = [''db'']\<rparr>"
  let ?w_c = "\<lparr>clock = 11, env = (), invoked = [''db'', ''cache'']\<rparr>"
  have registry: "checkers ?m = map Some [?db1, ?cache, ?db2]"
    by (simp add: Register_def NewManager_def)
  from CheckAll_returns_mapping [OF registry, of Background ?w]
  obtain results w' where
    run: "CheckAll Background ?m ?w = Inr (results, w')"
    and dom: "fmdom results = fset_of_list (map Name [?db1, ?cache, ?db2])"
    and inv: "invoked w' = invoked ?w @ map Name [?db1, ?cache, ?db2]"
    and recorded:
      "\<forall>pre c post results_pre w_pre result w_c.
         [?db1, ?cache, ?db2] = pre @ c # post \<and> Name c \<notin> Name ` set post
         \<and> CheckAll_loop Background (map Some pre) fmempty ?w = Inr (results_pre, w_pre)
         \<and> call_Check c Background w_pre = (result, w_c)
         \<longrightarrow> fmlookup results (Name c)
               = Some (result\<lparr>Latency := clock w_c - clock w_pre\<rparr>)"
    by blast
  have "fmlookup results (Name ?cache)
          = Some (\<lparr>Status = StatusUnhealthy, Message = [], Latency = 0, Error = ''timeout''\<rparr>
                   \<lparr>Latency := clock ?w_c - clock ?w_pre\<rparr>)"
    using recorded [rule_format, of "[?db1]" ?cache "[?db2]"
        "fmupd ''db'' \<lparr>Status = StatusHealthy, Message = ''first'', Latency = 3,
                        Error = []\<rparr> fmempty"
        ?w_pre
        "\<lparr>Status = StatusUnhealthy, Message = [], Latency = 0, Error = ''timeout''\<rparr>" ?w_c]
    by (simp add: call_Check_def mockHealthChecker_def Now_def Since_def)
  then have entry: "fmlookup results ''cache''
      = Some \<lparr>Status = StatusUnhealthy, Message = [], Latency = 8, Error = ''timeout''\<rparr>"
    by (simp add: mockHealthChecker_def)
  have names: "fmdom results = {|''db'', ''cache''|}"
    using dom by (auto simp: mockHealthChecker_def)
  have calls: "invoked w' = [''db'', ''cache'', ''db'']"
    using inv by (simp add: mockHealthChecker_def)
  show ?thesis
  proof (rule conjI [OF registry], rule exI [of _ results], rule exI [of _ w'])
    from run names calls entry
    show "CheckAll Background ?m ?w = Inr (results, w')
          \<and> fmdom results = {|''db'', ''cache''|}
          \<and> invoked w' = [''db'', ''cache'', ''db'']
          \<and> fmlookup results ''cache''
              = Some \<lparr>Status = StatusUnhealthy, Message = [], Latency = 8,
                      Error = ''timeout''\<rparr>"
      by (intro conjI)
  qed
qed

text \<open>
  C10 as stated fails for a probe whose name a later-registered probe has: the returned map
  holds nothing of its result. Here the first probe named \<^verbatim>\<open>cache\<close> returns unhealthy,
  \<^verbatim>\<open>stale\<close>, \<^verbatim>\<open>timeout\<close>; the entry under \<^verbatim>\<open>cache\<close> is healthy, \<^verbatim>\<open>warm\<close>, with no error.
\<close>

theorem overwritten_probe_fields_lost_counterexample:
  "call_Check
       (mockHealthChecker ''cache''
          \<lparr>Status = StatusUnhealthy, Message = ''stale'', Latency = 0, Error = ''timeout''\<rparr> 4)
       (Done Canceled) \<lparr>clock = 10, env = (), invoked = []\<rparr>
     = (\<lparr>Status = StatusUnhealthy, Message = ''stale'', Latency = 0, Error = ''timeout''\<rparr>,
        \<lparr>clock = 14, env = (), invoked = [''cache'']\<rparr>)
   \<and> CheckAll (Done Canceled)
        (Register
           (Some (mockHealthChecker ''cache''
              \<lparr>Status = StatusHealthy, Message = ''warm'', Latency = 0, Error = []\<rparr> 6))
           (Register
              (Some (mockHealthChecker ''cache''
                 \<lparr>Status = StatusUnhealthy, Message = ''stale'', Latency = 0,
                   Error = ''timeout''\<rparr> 4))
              NewManager))
        \<lparr>clock = 10, env = (), invoked = []\<rparr>
      = Inr (fmupd ''cache''
               \<lparr>Status = StatusHealthy, Message = ''warm'', Latency = 6, Error = []\<rparr> fmempty,
             \<lparr>clock = 20, env = (), invoked = [''cache'', ''cache'']\<rparr>)
   \<and> StatusHealthy \<noteq> StatusUnhealthy
   \<and> ''warm'' \<noteq> ''stale''
   \<and> [] \<noteq> ''timeout''"
  by (simp add: CheckAll_def Register_def NewManager_def call_Check_def Now_def Since_def
      mockHealthChecker_def StatusHealthy_def StatusUnhealthy_def)

text \<open>
  C10, as the code has it. For a probe \<open>c\<close> whose name no later-registered probe has, the
  entry of the returned map under that name has the status, message and error of the result
  that \<^verbatim>\<open>Check\<close> returned, and as latency the difference of the clock readings after and
  before that call, whatever latency the probe put in its result.
\<close>

theorem entry_keeps_fields_latency_measured:
  assumes "Name c \<notin> Name ` set post"
    and "CheckAll ctx (foldl (\<lambda>m p. Register p m) NewManager (map Some pre)) w
           = Inr (results_pre, w_pre)"
    and "call_Check c ctx w_pre = (result, w_c)"
  shows "\<exists>results w' entry.
           CheckAll ctx (foldl (\<lambda>m p. Register p m) NewManager (map Some (pre @ c # post))) w
             = Inr (results, w')
           \<and> fmlookup results (Name c) = Some entry
           \<and> Status entry = Status result
           \<and> Message entry = Message result
           \<and> Error entry = Error result
           \<and> Latency entry = clock w_c - clock w_pre"
proof -
  have pre: "CheckAll_loop ctx (map Some pre) fmempty w = Inr (results_pre, w_pre)"
    using assms(2) by (simp only: CheckAll_registered)
  obtain results w' where
    "CheckAll_loop ctx (map Some (pre @ c # post)) fmempty w = Inr (results, w')"
    "fmlookup results (Name c) = Some (result\<lparr>Latency := clock w_c - clock w_pre\<rparr>)"
    using CheckAll_loop_entry [OF assms(1) pre assms(3)] by blast
  then show ?thesis
    by (simp only: CheckAll_registered) simp
qed

theorem entry_keeps_fields_latency_measured_witness:
  "Name (mockHealthChecker ''api''
           \<lparr>Status = StatusHealthy, Message = ''pong'', Latency = 999, Error = []\<rparr> 7
           :: unit Checker)
     \<notin> Name ` set ([] :: unit Checker list)
   \<and> CheckAll Background
        (foldl (\<lambda>m p. Register p m) NewManager (map Some [MemoryChecker 5]))
        \<lparr>clock = 40, env = (), invoked = []\<rparr>
      = Inr (fmupd ''memory_storage''
               \<lparr>Status = StatusHealthy, Message = ''memory storage operational'',
                 Latency = 5, Error = []\<rparr> fmempty,
             \<lparr>clock = 45, env = (), invoked = [''memory_storage'']\<rparr>)
   \<and> call_Check
        (mockHealthChecker ''api''
           \<lparr>Status = StatusHealthy, Message = ''pong'', Latency = 999, Error = []\<rparr> 7)
        Background \<lparr>clock = 45, env = (), invoked = [''memory_storage'']\<rparr>
      = (\<lparr>Status = StatusHealthy, Message = ''pong'', Latency = 999, Error = []\<rparr>,
         \<lparr>clock = 52, env = (), invoked = [''memory_storage'', ''api'']\<rparr>)
   \<and> (\<exists>results w' entry.
        CheckAll Background
          (foldl (\<lambda>m p. Register p m) NewManager
             (map Some
               ([MemoryChecker 5]
                @ mockHealthChecker ''api''
                    \<lparr>Status = StatusHealthy, Message = ''pong'', Latency = 999,
                      Error = []\<rparr> 7
                # [])))
          \<lparr>clock = 40, env = (), invoked = []\<rparr> = Inr (results, w')
        \<and> fmlookup results ''api'' = Some entry
        \<and> Status entry = StatusHealthy
        \<and> Message entry = ''pong''
        \<and> Error entry = []
        \<and> Latency entry = 7)"
proof -
  let ?api = "mockHealthChecker ''api''
      \<lparr>Status = StatusHealthy, Message = ''pong'', Latency = 999, Error = []\<rparr> 7
      :: unit Checker"
  let ?w = "\<lparr>clock = 40, env = (), invoked = []\<rparr>"
  let ?w_pre = "\<lparr>clock = 45, env = (), invoked = [''memory_storage'']\<rparr>"
  let ?w_c = "\<lparr>clock = 52, env = (), invoked = [''memory_storage'', ''api'']\<rparr>"
  have later: "Name ?api \<notin> Name ` set ([] :: unit Checker list)"
    by simp
  have pre: "CheckAll Background
               (foldl (\<lambda>m p. Register p m) NewManager (map Some [MemoryChecker 5])) ?w
             = Inr (fmupd ''memory_storage''
                      \<lparr>Status = StatusHealthy, Message = ''memory storage operational'',
                        Latency = 5, Error = []\<rparr> fmempty, ?w_pre)"
    by (simp add: CheckAll_def Register_def NewManager_def call_Check_def Now_def Since_def
        MemoryChecker_def)
  have call: "call_Check ?api Background ?w_pre
              = (\<lparr>Status = StatusHealthy, Message = ''pong'', Latency = 999, Error = []\<rparr>, ?w_c)"
    by (simp add: call_Check_def mockHealthChecker_def)
  have name: "Name ?api = ''api''"
    by (simp add: mockHealthChecker_def)
  show ?thesis
    using later pre call entry_keeps_fields_latency_measured [OF later pre call]
    by (simp add: name)
qed

section \<open>What the AlreadyExists error carries\<close>

text \<open>
  C8 as stated fails: two calls of the store's \<^verbatim>\<open>Save\<close> that conflict on different
  identifiers return the same error value, so the identifier cannot be read off it.
\<close>

theorem Save_error_has_no_identifier_counterexample:
  "fst (Save GetID Background \<lparr>ID = ''u1'', Email = ''a@b.com'', Name = ''Alice''\<rparr>
          \<lparr>data = fmupd ''u1'' \<lparr>ID = ''u1'', Email = ''a@b.com'', Name = ''Alice''\<rparr> fmempty\<rparr>)
     = Some ErrAlreadyExists
   \<and> fst (Save GetID Background \<lparr>ID = ''u2'', Email = ''c@d.org'', Name = ''Bob''\<rparr>
          \<lparr>data = fmupd ''u2'' \<lparr>ID = ''u2'', Email = ''c@d.org'', Name = ''Bob''\<rparr> fmempty\<rparr>)
     = Some ErrAlreadyExists
   \<and> GetID \<lparr>ID = ''u1'', Email = ''a@b.com'', Name = ''Alice''\<rparr>
     \<noteq> GetID \<lparr>ID = ''u2'', Email = ''c@d.org'', Name = ''Bob''\<rparr>"
  by (simp add: Save_result GetID_def)

text \<open>
  C8, as the code has it. The store's \<^verbatim>\<open>Save\<close> returns the bare sentinel
  \<^verbatim>\<open>ErrAlreadyExists\<close> for every conflict. The identifier is attached one layer up: the
  example adapter's \<^verbatim>\<open>Save\<close> turns the sentinel into \<^verbatim>\<open>AlreadyExistsError\<close> carrying the
  \<^verbatim>\<open>ID\<close> of the entity it was asked to save.
\<close>

theorem AlreadyExists_identifier_attached_by_adapter:
  "fst (Save getID ctx entity r)
     = (if getID entity |\<in>| fmdom (data r) then Some ErrAlreadyExists else None)
   \<and> Save_example ctx' e s
     = (if ID e |\<in>| fmdom (data s) then (Some (AlreadyExistsError (ID e)), s)
        else (None, s\<lparr>data := fmupd (ID e) e (data s)\<rparr>))"
  by (simp add: Save_example_def Save_result GetID_def)

end
